theory Spec2Isabelle
  imports Complex_Main "HOL-Library.Multiset"
begin

text \<open>
  A shallow embedding of \<^verbatim>\<open>riskScan.go\<close>. Instants of time are integers
  (nanoseconds since the epoch, as \<^verbatim>\<open>time.Duration\<close> counts them), byte sizes are
  integers (\<^verbatim>\<open>int64\<close>, never used in arithmetic), strings are byte lists.
\<close>

section \<open>Arithmetic on float64\<close>

text \<open>
  A finite \<^verbatim>\<open>float64\<close> is modelled by the real number it denotes, and every
  operation rounds as IEEE 754 binary64 does: to the nearest number with a significand
  of 53 bits, ties to the even significand. The program adds at most four constants of
  magnitude below one, compares and clamps, so neither an infinity nor a NaN arises;
  magnitudes of \<open>2 ^ 1024\<close> and more are outside this model, and the two zeros are
  not told apart.

  \<open>binade x\<close> is the exponent \<open>e\<close> with \<open>2 ^ e \<le> x < 2 ^ (e + 1)\<close> of a positive \<open>x\<close>.
\<close>

function binade :: "real \<Rightarrow> int" where
  "binade x =
     (if x \<le> 0 then 0
      else if 2 \<le> x then binade (x / 2) + 1
      else if x < 1 then binade (2 * x) - 1
      else 0)"
  by pat_completeness auto
termination
proof (relation "measure (\<lambda>x. nat \<bar>\<lfloor>log 2 x\<rfloor>\<bar>)")
  show "wf (measure (\<lambda>x. nat \<bar>\<lfloor>log 2 x\<rfloor>\<bar>))" by simp
next
  fix x :: real
  assume "\<not> x \<le> 0" and x: "2 \<le> x"
  then have "log 2 (x / 2) = log 2 x - 1" by (simp add: log_divide)
  moreover from x have "1 \<le> log 2 x" by (simp add: le_log_iff)
  then have "1 \<le> \<lfloor>log 2 x\<rfloor>" by linarith
  ultimately show "(x / 2, x) \<in> measure (\<lambda>x. nat \<bar>\<lfloor>log 2 x\<rfloor>\<bar>)" by simp
next
  fix x :: real
  assume p: "\<not> x \<le> 0" and "\<not> 2 \<le> x" and x: "x < 1"
  then have "log 2 (2 * x) = 1 + log 2 x" by (simp add: log_mult)
  moreover from p x have "log 2 x < 0" by simp
  then have "\<lfloor>log 2 x\<rfloor> \<le> - 1" by linarith
  ultimately show "(2 * x, x) \<in> measure (\<lambda>x. nat \<bar>\<lfloor>log 2 x\<rfloor>\<bar>)" by simp
qed

definition pow2 :: "int \<Rightarrow> real" where
  "pow2 k = (if 0 \<le> k then 2 ^ nat k else 1 / 2 ^ nat (- k))"

text \<open>The nearest integer, the even one of the two when they are equally near.\<close>

definition roundEven :: "real \<Rightarrow> int" where
  "roundEven y =
     (let f = \<lfloor>y\<rfloor> in
      if y - of_int f < 1 / 2 then f
      else if 1 / 2 < y - of_int f then f + 1
      else if even f then f
      else f + 1)"

text \<open>
  The \<^verbatim>\<open>float64\<close> nearest to a real: a multiple of the unit in the last place of
  its binade, which is \<open>2 ^ (e - 52)\<close> and never below \<open>2 ^ - 1074\<close>. A decimal
  constant of the source, converted to \<^verbatim>\<open>float64\<close>, is \<open>float64\<close> of the decimal.
\<close>

definition float64 :: "real \<Rightarrow> real" where
  "float64 x =
     (let q = pow2 (max (binade \<bar>x\<bar> - 52) (- 1074))
      in of_int (roundEven (x / q)) * q)"

text \<open>The sum of two \<^verbatim>\<open>float64\<close> values.\<close>

definition fadd :: "real \<Rightarrow> real \<Rightarrow> real" where
  "fadd x y = float64 (x + y)"

section \<open>Part one: constants, result types, variables\<close>

definition hoursInWeek :: int where
  "hoursInWeek = 24 * 7"

definition maxRisk :: real where
  "maxRisk = float64 1.00"

definition minRisk :: real where
  "minRisk = float64 0.00"

definition dirArg :: string where
  "dirArg = ''--dir''"

definition outArg :: string where
  "outArg = ''--out''"

definition maxResults :: nat where
  "maxResults = 10"

text \<open>\<^verbatim>\<open>time.Hour\<close>, in nanoseconds.\<close>

definition Hour :: int where
  "Hour = 3600000000000"

text \<open>A file path and its associated risk.\<close>

record FileResult =
  Path :: string
  Risk :: real

text \<open>A directory, potentially containing files with risks.\<close>

record DirResult =
  Dir :: string
  Results :: "FileResult list"

text \<open>What the program reads of an \<^verbatim>\<open>fs.FileInfo\<close>.\<close>

record FileInfo =
  Size :: int
  ModTime :: int
  IsDir :: bool

text \<open>
  A method call on a nil \<^verbatim>\<open>fs.FileInfo\<close> interface value is a run-time panic
  that nothing in the program recovers.
\<close>

datatype panic = NilDereference

section \<open>Part two: risk assessment rules\<close>

text \<open>
  \<^verbatim>\<open>filepath.Ext\<close> of the Go library, with the Unix path separator: the suffix
  that starts at the last dot of the last path element, empty when there is none.
  The library scans the bytes downwards from the end; \<open>ExtLoop path n\<close> is the scan
  with \<open>n\<close> bytes still to look at.
\<close>

fun ExtLoop :: "string \<Rightarrow> nat \<Rightarrow> string" where
  "ExtLoop path 0 = []"
| "ExtLoop path (Suc i) =
     (if path ! i = CHR ''/'' then []
      else if path ! i = CHR ''.'' then drop i path
      else ExtLoop path i)"

definition Ext :: "string \<Rightarrow> string" where
  "Ext path = ExtLoop path (length path)"

text \<open>Checks how much risk to apply based on the file extension.\<close>

definition assessExtension :: "(string \<rightharpoonup> real) \<Rightarrow> string \<Rightarrow> real" where
  "assessExtension extensionRiskMap path =
     (let extension = Ext path in
      case extensionRiskMap extension of
        Some risk \<Rightarrow> risk
      | None \<Rightarrow> float64 0)"

text \<open>Makes sure the risk is within the defined bounds.\<close>

definition checkRiskRange :: "real \<Rightarrow> real" where
  "checkRiskRange risk =
     (if risk > maxRisk then maxRisk
      else if risk < minRisk then minRisk
      else risk)"

text \<open>
  The risk of a file before clamping. \<open>now\<close> is the reading of \<^verbatim>\<open>time.Now()\<close>
  taken inside the call.
\<close>

definition assessFileRisk :: "(string \<rightharpoonup> real) \<Rightarrow> int \<Rightarrow> string \<Rightarrow> FileInfo \<Rightarrow> real" where
  "assessFileRisk extensionRiskMap now path info =
     (let risk0 = float64 0.0;
          risk1 = (if Size info > 1000000 then fadd risk0 (float64 0.25) else risk0);
          risk2 = fadd risk1 (assessExtension extensionRiskMap path);
          timeLastWeek = now + Hour * (- hoursInWeek);
          risk3 = (if ModTime info > timeLastWeek then fadd risk2 (float64 0.20) else risk2)
      in risk3)"

text \<open>The rule on the length of the path string.\<close>

definition assessDirNameLength :: "string \<Rightarrow> real" where
  "assessDirNameLength path =
     (let size = length path in
      if size < 5 then float64 0.25
      else if size > 15 then float64 (- 0.10)
      else float64 0.5)"

text \<open>
  Assess one walked entry. \<open>absPath\<close> stands for \<^verbatim>\<open>filepath.Abs\<close>, which depends
  on the working directory of the process. The file info is read only when the error
  is nil; it is an option because the walk passes a nil info along with an error.
\<close>

definition assessDirRisk ::
  "(string \<rightharpoonup> real) \<Rightarrow> int \<Rightarrow> (string \<Rightarrow> string) \<Rightarrow>
     string \<Rightarrow> FileInfo option \<Rightarrow> string option \<Rightarrow> panic + FileResult list" where
  "assessDirRisk extensionRiskMap now absPath path info err =
     (case err of
        Some e \<Rightarrow> Inr []
      | None \<Rightarrow>
          (case info of
             None \<Rightarrow> Inl NilDereference
           | Some i \<Rightarrow>
               if Size i > 1000 then
                 (let fullRisk = fadd (assessFileRisk extensionRiskMap now path i)
                                   (assessDirNameLength path)
                  in Inr [\<lparr>Path = absPath path, Risk = checkRiskRange fullRisk\<rparr>])
               else Inr []))"

section \<open>Part three: util functions\<close>

text \<open>The table of extension risks, built entry by entry as the source does.\<close>

definition initExtensionRiskMap :: "string \<rightharpoonup> real" where
  "initExtensionRiskMap =
     (((((((Map.empty
       (''.zip'' \<mapsto> float64 0.15))
       (''.tar'' \<mapsto> float64 0.15))
       (''.png'' \<mapsto> float64 (- 0.20)))
       (''.jpg'' \<mapsto> float64 (- 0.20)))
       (''.jpeg'' \<mapsto> float64 (- 0.20)))
       (''.csv'' \<mapsto> float64 0.75))
       (''.json'' \<mapsto> float64 0.75))"

text \<open>
  Reading the command line: \<open>args\<close> is \<^verbatim>\<open>os.Args[1:]\<close>. One round of the
  loop runs both tests in sequence, the second one on the index the first one may
  have advanced.
\<close>

function readArgsLoop :: "string list \<Rightarrow> nat \<Rightarrow> (string \<rightharpoonup> string) \<Rightarrow> (string \<rightharpoonup> string)" where
  "readArgsLoop args i result =
     (if i < length args then
        (let (result1, i1) =
               (if dirArg = args ! i \<and> i + 1 < length args
                then (result(dirArg \<mapsto> args ! (i + 1)), i + 1)
                else (result, i));
             (result2, i2) =
               (if outArg = args ! i1 \<and> i1 + 1 < length args
                then (result1(outArg \<mapsto> args ! (i1 + 1)), i1 + 1)
                else (result1, i1))
         in readArgsLoop args (i2 + 1) result2)
      else result)"
  by pat_completeness auto
termination
  by (relation "measure (\<lambda>(args, i, result). length args - i)")
     (auto split: if_splits)

definition readCommandLineArgs :: "string list \<Rightarrow> (string \<rightharpoonup> string)" where
  "readCommandLineArgs args = readArgsLoop args 0 Map.empty"

text \<open>
  The smallest risk and its index in the array of results, scanning upwards from
  index \<open>i\<close> with the running pair.
\<close>

fun findSmallestLoop :: "nat \<Rightarrow> FileResult list \<Rightarrow> real \<times> nat \<Rightarrow> real \<times> nat" where
  "findSmallestLoop i [] acc = acc"
| "findSmallestLoop i (r # rs) (smallestRisk, smallestRiskIndex) =
     findSmallestLoop (i + 1) rs
       (if Risk r < smallestRisk then (Risk r, i) else (smallestRisk, smallestRiskIndex))"

definition findSmallestRisk :: "FileResult list \<Rightarrow> real \<times> nat" where
  "findSmallestRisk results = findSmallestLoop 0 results (maxRisk, 0)"

text \<open>
  Reduce the number of results to the maximum allowed. The array starts out with zero
  values: an empty path and the risk 0.
\<close>

definition zeroFileResult :: FileResult where
  "zeroFileResult = \<lparr>Path = [], Risk = 0\<rparr>"

fun trimLoop :: "nat \<Rightarrow> FileResult list \<Rightarrow> FileResult list \<Rightarrow> FileResult list" where
  "trimLoop i [] trimmedResults = trimmedResults"
| "trimLoop i (result # rest) trimmedResults =
     trimLoop (i + 1) rest
       (if i < maxResults then trimmedResults[i := result]
        else (case findSmallestRisk trimmedResults of
                (smallestRisk, smallestRiskIndex) \<Rightarrow>
                  if smallestRisk < Risk result
                  then trimmedResults[smallestRiskIndex := result]
                  else trimmedResults))"

definition trimDownResults :: "FileResult list \<Rightarrow> FileResult list" where
  "trimDownResults results =
     (if length results \<le> maxResults then results
      else trimLoop 0 results (replicate maxResults zeroFileResult))"

section \<open>Part four: main\<close>

text \<open>
  One call of the walk function by \<^verbatim>\<open>filepath.Walk\<close>: the path, the file info
  (nil when the \<^verbatim>\<open>Lstat\<close> of the entry failed), the error, and the reading of the
  clock during the call.
\<close>

record WalkEntry =
  entryPath :: string
  entryInfo :: "FileInfo option"
  entryErr :: "string option"
  entryClock :: int

text \<open>The two variables the walk function closes over.\<close>

record WalkState =
  finalResults :: "FileResult list"
  currentResults :: "FileResult list"

definition walkFn ::
  "(string \<rightharpoonup> real) \<Rightarrow> (string \<Rightarrow> string) \<Rightarrow> WalkState \<Rightarrow> WalkEntry \<Rightarrow> panic + WalkState" where
  "walkFn extensionRiskMap absPath st e =
     (case entryInfo e of
        None \<Rightarrow> Inl NilDereference
      | Some info \<Rightarrow>
          if IsDir info then
            Inr (st\<lparr>finalResults := finalResults st @ trimDownResults (currentResults st),
                    currentResults := []\<rparr>)
          else
            (case assessDirRisk extensionRiskMap (entryClock e) absPath
                    (entryPath e) (entryInfo e) (entryErr e) of
               Inl p \<Rightarrow> Inl p
             | Inr dirResult \<Rightarrow>
                 Inr (st\<lparr>currentResults := currentResults st @ dirResult\<rparr>)))"

text \<open>
  The walk function always returns nil, so the walk calls it on every entry of the
  traversal, in order; a panic ends the process.
\<close>

fun walkAll ::
  "(string \<rightharpoonup> real) \<Rightarrow> (string \<Rightarrow> string) \<Rightarrow> WalkState \<Rightarrow> WalkEntry list \<Rightarrow> panic + WalkState" where
  "walkAll extensionRiskMap absPath st [] = Inr st"
| "walkAll extensionRiskMap absPath st (e # es) =
     (case walkFn extensionRiskMap absPath st e of
        Inl p \<Rightarrow> Inl p
      | Inr st' \<Rightarrow> walkAll extensionRiskMap absPath st' es)"

text \<open>The walk and the final save after it: the flat list of results of a run.\<close>

definition scanResults ::
  "(string \<rightharpoonup> real) \<Rightarrow> (string \<Rightarrow> string) \<Rightarrow> WalkEntry list \<Rightarrow> panic + FileResult list" where
  "scanResults extensionRiskMap absPath entries =
     (case walkAll extensionRiskMap absPath \<lparr>finalResults = [], currentResults = []\<rparr> entries of
        Inl p \<Rightarrow> Inl p
      | Inr st \<Rightarrow> Inr (finalResults st @ trimDownResults (currentResults st)))"

text \<open>
  What the process does to the outside, in order. \<open>OpenFile\<close> is the call of
  \<^verbatim>\<open>os.OpenFile\<close> with \<^verbatim>\<open>O_CREATE\<close>, \<open>Encode\<close> the call of the JSON encoder on the
  opened file.
\<close>

datatype effect =
  Println string
  | Printf string
  | WalkTree string
  | OpenFile string
  | Encode DirResult
  | Panic panic

text \<open>
  The environment of a run: the calls the walk makes for a root directory,
  \<^verbatim>\<open>filepath.Abs\<close>, and the error of opening a file (\<open>None\<close> when it opens).
\<close>

record Env =
  envWalk :: "string \<Rightarrow> WalkEntry list"
  envAbs :: "string \<Rightarrow> string"
  envOpenErr :: "string \<Rightarrow> string option"

definition main :: "Env \<Rightarrow> string list \<Rightarrow> effect list" where
  "main env osArgs =
     (let extensionRiskMap = initExtensionRiskMap;
          args = readCommandLineArgs osArgs
      in case args dirArg of
           None \<Rightarrow> [Println ''Both '--dir' and '--out' need to be set. Exiting.'']
         | Some rootDir \<Rightarrow>
             (case args outArg of
                None \<Rightarrow> [Println ''Both '--dir' and '--out' need to be set. Exiting.'']
              | Some outFileName \<Rightarrow>
                  (let absoluteDir = envAbs env rootDir in
                   case scanResults extensionRiskMap (envAbs env) (envWalk env rootDir) of
                     Inl p \<Rightarrow> [WalkTree rootDir, Panic p]
                   | Inr results \<Rightarrow>
                       (case envOpenErr env outFileName of
                          Some fileOpenErr \<Rightarrow>
                            [WalkTree rootDir, OpenFile outFileName,
                             Printf (''Error while opening the output file: '' @ fileOpenErr)]
                        | None \<Rightarrow>
                            [WalkTree rootDir, OpenFile outFileName,
                             Encode \<lparr>Dir = absoluteDir, Results = results\<rparr>]))))"


section \<open>Auxiliary notions for the statements\<close>

text \<open>
  A walked entry qualifies when it is a file whose metadata was read without error and
  whose size exceeds 1000 bytes; \<open>resultOf\<close> is the result that the scoring creates for
  it; \<open>fromEntry m absP e x\<close> says that \<open>x\<close> is that result of the qualifying entry
  \<open>e\<close>.
\<close>

definition qualifies :: "WalkEntry \<Rightarrow> bool" where
  "qualifies e =
     (case entryInfo e of
        None \<Rightarrow> False
      | Some i \<Rightarrow> \<not> IsDir i \<and> entryErr e = None \<and> 1000 < Size i)"

definition resultOf :: "(string \<rightharpoonup> real) \<Rightarrow> (string \<Rightarrow> string) \<Rightarrow> WalkEntry \<Rightarrow> FileResult" where
  "resultOf m absP e =
     (case entryInfo e of
        None \<Rightarrow> zeroFileResult
      | Some i \<Rightarrow>
          \<lparr>Path = absP (entryPath e),
           Risk = checkRiskRange (fadd (assessFileRisk m (entryClock e) (entryPath e) i)
                    (assessDirNameLength (entryPath e)))\<rparr>)"

definition fromEntry ::
  "(string \<rightharpoonup> real) \<Rightarrow> (string \<Rightarrow> string) \<Rightarrow> WalkEntry \<Rightarrow> FileResult \<Rightarrow> bool" where
  "fromEntry m absP e x \<longleftrightarrow> qualifies e \<and> x = resultOf m absP e"












section \<open>Constants of type float64\<close>

lemma float64_zero: "float64 0 = 0"
  by code_simp

lemma float64_one: "float64 1 = 1"
  by code_simp

lemma maxRisk_one: "maxRisk = 1"
  by (simp add: maxRisk_def float64_one)

lemma minRisk_zero: "minRisk = 0"
  by (simp add: minRisk_def float64_zero)

text \<open>
  Some well-known values: the constants 0.1 and 0.2 (bit patterns
  \<^verbatim>\<open>3FB999999999999A\<close> and \<^verbatim>\<open>3FC999999999999A\<close>), and their sum, which is
  0.30000000000000004 and not the constant 0.3.
\<close>

lemma float64_known_values:
  "float64 0.1 = 3602879701896397 / 2 ^ 55"
  "float64 0.2 = 3602879701896397 / 2 ^ 54"
  "float64 0.3 = 5404319552844595 / 2 ^ 54"
  "fadd (float64 0.1) (float64 0.2) = 5404319552844596 / 2 ^ 54"
  "float64 (float64 0.1) = float64 0.1"
  by code_simp+

lemma float64_constants:
  "float64 0.15 = 5404319552844595 / 2 ^ 55"
  "float64 (- 0.20) = - (3602879701896397 / 2 ^ 54)"
  "float64 0.75 = 0.75"
  by code_simp+

section \<open>The extension table\<close>

lemma initExtensionRiskMap_lookup:
  "initExtensionRiskMap ext =
     (if ext = ''.json'' \<or> ext = ''.csv'' then Some (float64 0.75)
      else if ext = ''.jpeg'' \<or> ext = ''.jpg'' \<or> ext = ''.png'' then Some (float64 (- 0.20))
      else if ext = ''.tar'' \<or> ext = ''.zip'' then Some (float64 0.15)
      else None)"
  by (simp add: initExtensionRiskMap_def)

lemma dom_initExtensionRiskMap:
  "dom initExtensionRiskMap =
     {''.json'', ''.csv'', ''.jpeg'', ''.jpg'', ''.png'', ''.tar'', ''.zip''}"
  by (simp add: initExtensionRiskMap_def)

text \<open>
  Claim C5. The table holds exactly seven keys: \<open>.zip\<close> and \<open>.tar\<close> at 0.15, \<open>.png\<close>,
  \<open>.jpg\<close> and \<open>.jpeg\<close> at -0.20, \<open>.csv\<close> and \<open>.json\<close> at 0.75, each value being the
  \<^verbatim>\<open>float64\<close> constant of that decimal. The lookup of a path returns the entry of
  its extension, taken as it stands, and 0 for every extension that is not a key; it
  has no failure result. The table is a value the scoring functions only read.
\<close>

theorem extension_table:
  "initExtensionRiskMap ''.zip'' = Some (float64 0.15)
   \<and> initExtensionRiskMap ''.tar'' = Some (float64 0.15)
   \<and> initExtensionRiskMap ''.png'' = Some (float64 (- 0.20))
   \<and> initExtensionRiskMap ''.jpg'' = Some (float64 (- 0.20))
   \<and> initExtensionRiskMap ''.jpeg'' = Some (float64 (- 0.20))
   \<and> initExtensionRiskMap ''.csv'' = Some (float64 0.75)
   \<and> initExtensionRiskMap ''.json'' = Some (float64 0.75)
   \<and> dom initExtensionRiskMap =
       {''.json'', ''.csv'', ''.jpeg'', ''.jpg'', ''.png'', ''.tar'', ''.zip''}
   \<and> assessExtension initExtensionRiskMap path =
       (if Ext path = ''.zip'' \<or> Ext path = ''.tar'' then float64 0.15
        else if Ext path = ''.png'' \<or> Ext path = ''.jpg'' \<or> Ext path = ''.jpeg''
          then float64 (- 0.20)
        else if Ext path = ''.csv'' \<or> Ext path = ''.json'' then float64 0.75
        else 0)
   \<and> float64 0.15 = 5404319552844595 / 2 ^ 55
   \<and> float64 (- 0.20) = - (3602879701896397 / 2 ^ 54)
   \<and> float64 0.75 = 0.75"
proof -
  have a: "assessExtension initExtensionRiskMap path =
       (if Ext path = ''.zip'' \<or> Ext path = ''.tar'' then float64 0.15
        else if Ext path = ''.png'' \<or> Ext path = ''.jpg'' \<or> Ext path = ''.jpeg''
          then float64 (- 0.20)
        else if Ext path = ''.csv'' \<or> Ext path = ''.json'' then float64 0.75
        else 0)"
    by (simp add: assessExtension_def initExtensionRiskMap_lookup float64_zero)
  have t: "initExtensionRiskMap ''.zip'' = Some (float64 0.15)"
    "initExtensionRiskMap ''.tar'' = Some (float64 0.15)"
    "initExtensionRiskMap ''.png'' = Some (float64 (- 0.20))"
    "initExtensionRiskMap ''.jpg'' = Some (float64 (- 0.20))"
    "initExtensionRiskMap ''.jpeg'' = Some (float64 (- 0.20))"
    "initExtensionRiskMap ''.csv'' = Some (float64 0.75)"
    "initExtensionRiskMap ''.json'' = Some (float64 0.75)"
    by (simp_all add: initExtensionRiskMap_lookup)
  show ?thesis using dom_initExtensionRiskMap a t float64_constants by blast
qed

theorem extension_table_witness:
  "assessExtension initExtensionRiskMap ''a/b.zip'' = float64 0.15
   \<and> assessExtension initExtensionRiskMap ''photo.jpeg'' = float64 (- 0.20)
   \<and> assessExtension initExtensionRiskMap ''big.csv'' = float64 0.75
   \<and> assessExtension initExtensionRiskMap ''big.CSV'' = 0
   \<and> assessExtension initExtensionRiskMap ''Makefile'' = 0"
proof -
  have e: "Ext ''a/b.zip'' = ''.zip''" "Ext ''photo.jpeg'' = ''.jpeg''" "Ext ''big.csv'' = ''.csv''"
    "Ext ''big.CSV'' = ''.CSV''" "Ext ''Makefile'' = []"
    by (simp_all add: Ext_def eval_nat_numeral)
  show ?thesis
    using extension_table [of "''a/b.zip''"] extension_table [of "''photo.jpeg''"]
      extension_table [of "''big.csv''"] extension_table [of "''big.CSV''"]
      extension_table [of "''Makefile''"]
    by (simp add: e)
qed

section \<open>Scoring one file\<close>

lemma big_csv_sums:
  "fadd (fadd (fadd (float64 0.0) (float64 0.25)) (float64 0.75)) (float64 0.20)
     = 5404319552844595 / 2 ^ 52"
  "fadd (fadd (fadd (fadd (float64 0.0) (float64 0.25)) (float64 0.75)) (float64 0.20))
       (float64 (- 0.10))
     = 4953959590107545 / 2 ^ 52"
  "float64 1.20 = 5404319552844595 / 2 ^ 52"
  "float64 1.10 = 4953959590107546 / 2 ^ 52"
  by code_simp+

text \<open>
  Claim C6. As amended. A path of 20 bytes with extension \<open>.csv\<close>, a size of 2,000,000
  bytes and a modification time one hour before the clock reading: the file risk is
  the \<^verbatim>\<open>float64\<close> sum of 0.25, 0.75 and 0.20, which is the constant 1.20; the path
  length rule gives the constant -0.10; their \<^verbatim>\<open>float64\<close> sum is
  \<open>4953959590107545 / 2 ^ 52\<close>, that is 1.0999999999999999 and one unit in the last
  place below the constant 1.10; it exceeds 1, and the result stored for the file has
  risk 1.0.
\<close>

theorem big_csv_scenario:
  "length path = 20 \<Longrightarrow> Ext path = ''.csv'' \<Longrightarrow> Size info = 2000000 \<Longrightarrow>
   ModTime info = now - 1 * Hour \<Longrightarrow>
     assessFileRisk initExtensionRiskMap now path info
       = fadd (fadd (fadd (float64 0.0) (float64 0.25)) (float64 0.75)) (float64 0.20)
     \<and> assessFileRisk initExtensionRiskMap now path info = float64 1.20
     \<and> assessDirNameLength path = float64 (- 0.10)
     \<and> fadd (assessFileRisk initExtensionRiskMap now path info) (assessDirNameLength path)
         = 4953959590107545 / 2 ^ 52
     \<and> fadd (assessFileRisk initExtensionRiskMap now path info) (assessDirNameLength path)
         = float64 1.10 - 1 / 2 ^ 52
     \<and> 1 < fadd (assessFileRisk initExtensionRiskMap now path info) (assessDirNameLength path)
     \<and> assessDirRisk initExtensionRiskMap now absPath path (Some info) None
         = Inr [\<lparr>Path = absPath path, Risk = 1.0\<rparr>]"
proof -
  assume h: "length path = 20" "Ext path = ''.csv''" "Size info = 2000000"
    "ModTime info = now - 1 * Hour"
  have f: "assessFileRisk initExtensionRiskMap now path info
       = fadd (fadd (fadd (float64 0.0) (float64 0.25)) (float64 0.75)) (float64 0.20)"
    using h by (simp add: assessFileRisk_def assessExtension_def initExtensionRiskMap_lookup
        Hour_def hoursInWeek_def Let_def)
  have d: "assessDirNameLength path = float64 (- 0.10)"
    using h by (simp add: assessDirNameLength_def)
  have s: "fadd (assessFileRisk initExtensionRiskMap now path info) (assessDirNameLength path)
         = 4953959590107545 / 2 ^ 52"
    unfolding f d by (rule big_csv_sums(2))
  have r: "assessDirRisk initExtensionRiskMap now absPath path (Some info) None
         = Inr [\<lparr>Path = absPath path, Risk = 1.0\<rparr>]"
    using h by (simp add: assessDirRisk_def Let_def s checkRiskRange_def maxRisk_one minRisk_zero)
  have c2: "assessFileRisk initExtensionRiskMap now path info = float64 1.20"
    unfolding f by (simp only: big_csv_sums(1) big_csv_sums(3))
  have c5: "fadd (assessFileRisk initExtensionRiskMap now path info) (assessDirNameLength path)
         = float64 1.10 - 1 / 2 ^ 52"
    unfolding s big_csv_sums(4) by simp
  have c6: "1 < fadd (assessFileRisk initExtensionRiskMap now path info) (assessDirNameLength path)"
    unfolding s by simp
  from f c2 d s c5 c6 r show ?thesis by blast
qed

theorem big_csv_scenario_witness:
  "length ''/data/dir123/big.csv'' = 20 \<and> Ext ''/data/dir123/big.csv'' = ''.csv''
   \<and> fadd (assessFileRisk initExtensionRiskMap 1700000000000000000 ''/data/dir123/big.csv''
              \<lparr>Size = 2000000, ModTime = 1700000000000000000 - 1 * Hour, IsDir = False\<rparr>)
        (assessDirNameLength ''/data/dir123/big.csv'')
       = 4953959590107545 / 2 ^ 52
   \<and> assessDirRisk initExtensionRiskMap 1700000000000000000 (\<lambda>p. p) ''/data/dir123/big.csv''
         (Some \<lparr>Size = 2000000, ModTime = 1700000000000000000 - 1 * Hour, IsDir = False\<rparr>) None
       = Inr [\<lparr>Path = ''/data/dir123/big.csv'', Risk = 1.0\<rparr>]"
proof -
  have e: "Ext ''/data/dir123/big.csv'' = ''.csv''"
    by (simp add: Ext_def eval_nat_numeral)
  have l: "length ''/data/dir123/big.csv'' = 20" by simp
  have z: "Size \<lparr>Size = 2000000, ModTime = 1700000000000000000 - 1 * Hour, IsDir = False\<rparr>
      = 2000000" by simp
  have t: "ModTime \<lparr>Size = 2000000, ModTime = 1700000000000000000 - 1 * Hour, IsDir = False\<rparr>
      = 1700000000000000000 - 1 * Hour" by simp
  from big_csv_scenario [OF l e z t, of "\<lambda>p. p"] l e show ?thesis by blast
qed

text \<open>
  On the input of the claim the sum that the code computes is not 1.10: neither the
  decimal nor the \<^verbatim>\<open>float64\<close> constant 1.10.
\<close>

theorem big_csv_raw_sum_counterexample:
  "fadd (assessFileRisk initExtensionRiskMap 1700000000000000000 ''/data/dir123/big.csv''
              \<lparr>Size = 2000000, ModTime = 1700000000000000000 - 1 * Hour, IsDir = False\<rparr>)
        (assessDirNameLength ''/data/dir123/big.csv'')
     \<noteq> 1.10
   \<and> fadd (assessFileRisk initExtensionRiskMap 1700000000000000000 ''/data/dir123/big.csv''
              \<lparr>Size = 2000000, ModTime = 1700000000000000000 - 1 * Hour, IsDir = False\<rparr>)
        (assessDirNameLength ''/data/dir123/big.csv'')
     \<noteq> float64 1.10
   \<and> fadd (assessFileRisk initExtensionRiskMap 1700000000000000000 ''/data/dir123/big.csv''
              \<lparr>Size = 2000000, ModTime = 1700000000000000000 - 1 * Hour, IsDir = False\<rparr>)
        (assessDirNameLength ''/data/dir123/big.csv'')
     = 4953959590107545 / 2 ^ 52"
proof -
  have e: "Ext ''/data/dir123/big.csv'' = ''.csv''"
    by (simp add: Ext_def eval_nat_numeral)
  have f: "assessFileRisk initExtensionRiskMap 1700000000000000000 ''/data/dir123/big.csv''
              \<lparr>Size = 2000000, ModTime = 1700000000000000000 - 1 * Hour, IsDir = False\<rparr>
       = fadd (fadd (fadd (float64 0.0) (float64 0.25)) (float64 0.75)) (float64 0.20)"
    by (simp add: assessFileRisk_def assessExtension_def e initExtensionRiskMap_lookup
        Hour_def hoursInWeek_def Let_def)
  have d: "assessDirNameLength ''/data/dir123/big.csv'' = float64 (- 0.10)"
    by (simp add: assessDirNameLength_def)
  have s: "fadd (assessFileRisk initExtensionRiskMap 1700000000000000000 ''/data/dir123/big.csv''
              \<lparr>Size = 2000000, ModTime = 1700000000000000000 - 1 * Hour, IsDir = False\<rparr>)
        (assessDirNameLength ''/data/dir123/big.csv'')
     = 4953959590107545 / 2 ^ 52"
    unfolding f d by (rule big_csv_sums(2))
  have n1: "(4953959590107545 :: real) / 2 ^ 52 \<noteq> 1.10" by simp
  have n2: "(4953959590107545 :: real) / 2 ^ 52 \<noteq> float64 1.10"
    unfolding big_csv_sums(4) by simp
  from n1 n2 show ?thesis unfolding s by blast
qed

lemma checkRiskRange_bounds: "0 \<le> checkRiskRange r \<and> checkRiskRange r \<le> 1"
  by (simp add: checkRiskRange_def maxRisk_one minRisk_zero)

lemma assessDirRisk_Inr:
  "assessDirRisk m now absPath path info err = Inr rs \<Longrightarrow> r \<in> set rs \<Longrightarrow>
     \<exists>i. err = None \<and> info = Some i \<and> 1000 < Size i
       \<and> r = \<lparr>Path = absPath path,
              Risk = checkRiskRange (fadd (assessFileRisk m now path i)
                       (assessDirNameLength path))\<rparr>"
  by (auto simp: assessDirRisk_def Let_def split: option.splits if_splits)

section \<open>Reading the command line\<close>

declare readArgsLoop.simps [simp del]

lemma readArgsLoop_done: "\<not> i < length args \<Longrightarrow> readArgsLoop args i result = result"
  by (subst readArgsLoop.simps) simp

lemma readArgsLoop_unfold:
  "i < length args \<Longrightarrow>
     readArgsLoop args i result =
       (if dirArg = args ! i \<and> i + 1 < length args then
          (if outArg = args ! (i + 1) \<and> i + 2 < length args
           then readArgsLoop args (i + 3)
                  (result(dirArg \<mapsto> args ! (i + 1), outArg \<mapsto> args ! (i + 2)))
           else readArgsLoop args (i + 2) (result(dirArg \<mapsto> args ! (i + 1))))
        else if outArg = args ! i \<and> i + 1 < length args
          then readArgsLoop args (i + 2) (result(outArg \<mapsto> args ! (i + 1)))
          else readArgsLoop args (i + 1) result)"
  by (subst readArgsLoop.simps) (simp add: Let_def numeral_3_eq_3 numeral_2_eq_2)

lemma dirArg_neq_outArg: "dirArg \<noteq> outArg"
  by (simp add: dirArg_def outArg_def)

lemma readArgsLoop_no_dir:
  "dirArg \<notin> set args \<Longrightarrow> result dirArg = None \<Longrightarrow> readArgsLoop args i result dirArg = None"
proof (induction "length args - i" arbitrary: i result rule: less_induct)
  case less
  show ?case
  proof (cases "i < length args")
    case False
    then show ?thesis using less.prems by (simp add: readArgsLoop_done)
  next
    case True
    with less.prems(1) have nd: "dirArg \<noteq> args ! i" by (metis nth_mem)
    have upd: "(result(outArg \<mapsto> v)) dirArg = None" for v
      using less.prems(2) dirArg_neq_outArg by simp
    have 1: "readArgsLoop args (i + 2) (result(outArg \<mapsto> v)) dirArg = None" for v
      using True less.prems(1) upd by (intro less.hyps) simp_all
    have 2: "readArgsLoop args (i + 1) result dirArg = None"
      using True less.prems by (intro less.hyps) simp_all
    show ?thesis using nd 1 2 by (simp add: readArgsLoop_unfold [OF True])
  qed
qed

lemma readArgsLoop_no_out:
  "outArg \<notin> set args \<Longrightarrow> result outArg = None \<Longrightarrow> readArgsLoop args i result outArg = None"
proof (induction "length args - i" arbitrary: i result rule: less_induct)
  case less
  show ?case
  proof (cases "i < length args")
    case False
    then show ?thesis using less.prems by (simp add: readArgsLoop_done)
  next
    case True
    with less.prems(1) have no: "outArg \<noteq> args ! i" by (metis nth_mem)
    have no1: "i + 1 < length args \<Longrightarrow> outArg \<noteq> args ! (i + 1)"
      using less.prems(1) by (metis nth_mem)
    have upd: "(result(dirArg \<mapsto> v)) outArg = None" for v
      using less.prems(2) dirArg_neq_outArg by simp
    have 1: "readArgsLoop args (i + 2) (result(dirArg \<mapsto> v)) outArg = None" for v
      using True less.prems(1) upd by (intro less.hyps) simp_all
    have 2: "readArgsLoop args (i + 1) result outArg = None"
      using True less.prems by (intro less.hyps) simp_all
    show ?thesis
    proof (cases "i + 1 < length args")
      case True
      with no no1 1 2 show ?thesis by (simp add: readArgsLoop_unfold [OF \<open>i < length args\<close>])
    next
      case False
      with no 2 show ?thesis by (simp add: readArgsLoop_unfold [OF True])
    qed
  qed
qed

text \<open>
  Claim C9. The source means the value after a flag to be consumed (its comment says
  so, and the \<open>--out\<close> test does it), but after \<open>--dir\<close> has taken its value the
  \<open>--out\<close> test of the same round reads that value: in \<open>--dir --out x\<close> the
  argument \<open>--out\<close> is both the value of \<open>--dir\<close> and a flag that takes \<open>x\<close>. In
  \<open>--out --dir x\<close> the argument \<open>--dir\<close> is only a value.
\<close>

theorem value_seen_as_flag:
  "readCommandLineArgs [''--dir'', ''--out'', ''x''] dirArg = Some ''--out''
   \<and> readCommandLineArgs [''--dir'', ''--out'', ''x''] outArg = Some ''x''
   \<and> readCommandLineArgs [''--out'', ''--dir'', ''x''] outArg = Some ''--dir''
   \<and> readCommandLineArgs [''--out'', ''--dir'', ''x''] dirArg = None"
  by (simp add: readCommandLineArgs_def readArgsLoop.simps dirArg_def outArg_def)

text \<open>
  Claim C7. When \<open>--dir\<close> or \<open>--out\<close> does not occur on the command line, all the
  process does is print the diagnostic line: it walks no tree, opens no file and
  encodes nothing.
\<close>

theorem missing_flag_exits:
  "dirArg \<notin> set osArgs \<or> outArg \<notin> set osArgs \<Longrightarrow>
     main env osArgs = [Println ''Both '--dir' and '--out' need to be set. Exiting.'']"
proof -
  assume "dirArg \<notin> set osArgs \<or> outArg \<notin> set osArgs"
  then have "readCommandLineArgs osArgs dirArg = None \<or> readCommandLineArgs osArgs outArg = None"
    by (auto simp: readCommandLineArgs_def readArgsLoop_no_dir readArgsLoop_no_out)
  then show ?thesis
    by (auto simp: main_def Let_def split: option.splits)
qed

theorem missing_flag_exits_witness:
  "main \<lparr>envWalk = (\<lambda>root. []), envAbs = (\<lambda>p. p), envOpenErr = (\<lambda>name. None)\<rparr>
      [''--out'', ''report.json'']
     = [Println ''Both '--dir' and '--out' need to be set. Exiting.'']
   \<and> main \<lparr>envWalk = (\<lambda>root. []), envAbs = (\<lambda>p. p), envOpenErr = (\<lambda>name. None)\<rparr>
      [''--dir'', ''/data'']
     = [Println ''Both '--dir' and '--out' need to be set. Exiting.'']"
  using missing_flag_exits [of "[''--out'', ''report.json'']"
      "\<lparr>envWalk = (\<lambda>root. []), envAbs = (\<lambda>p. p), envOpenErr = (\<lambda>name. None)\<rparr>"]
    missing_flag_exits [of "[''--dir'', ''/data'']"
      "\<lparr>envWalk = (\<lambda>root. []), envAbs = (\<lambda>p. p), envOpenErr = (\<lambda>name. None)\<rparr>"]
  by (simp add: dirArg_def outArg_def)

section \<open>Trimming the results of a directory\<close>

lemma findSmallestLoop_spec:
  "findSmallestLoop i rs (s, k) = (s', k') \<Longrightarrow>
     s' \<le> s \<and> (\<forall>r \<in> set rs. s' \<le> Risk r)
     \<and> ((s' = s \<and> k' = k)
        \<or> (s' < s \<and> (\<exists>j < length rs. k' = i + j \<and> Risk (rs ! j) = s'
            \<and> (\<forall>j' < j. s' < Risk (rs ! j')))))"
proof (induction rs arbitrary: i s k)
  case Nil
  then show ?case by simp
next
  case (Cons r rs)
  show ?case
  proof (cases "Risk r < s")
    case True
    with Cons.prems have "findSmallestLoop (i + 1) rs (Risk r, i) = (s', k')" by simp
    from Cons.IH [OF this]
    have le: "s' \<le> Risk r" and low: "\<forall>x \<in> set rs. s' \<le> Risk x"
      and alt: "(s' = Risk r \<and> k' = i)
        \<or> (s' < Risk r \<and> (\<exists>j < length rs. k' = i + 1 + j \<and> Risk (rs ! j) = s'
            \<and> (\<forall>j' < j. s' < Risk (rs ! j'))))"
      by auto
    from alt have "\<exists>j < length (r # rs). k' = i + j \<and> Risk ((r # rs) ! j) = s'
            \<and> (\<forall>j' < j. s' < Risk ((r # rs) ! j'))"
    proof
      assume "s' = Risk r \<and> k' = i"
      then show ?thesis by (intro exI [of _ 0]) simp
    next
      assume "s' < Risk r \<and> (\<exists>j < length rs. k' = i + 1 + j \<and> Risk (rs ! j) = s'
            \<and> (\<forall>j' < j. s' < Risk (rs ! j')))"
      then obtain j where j: "s' < Risk r" "j < length rs" "k' = i + 1 + j" "Risk (rs ! j) = s'"
        "\<forall>j' < j. s' < Risk (rs ! j')" by blast
      then show ?thesis
        by (intro exI [of _ "Suc j"]) (simp add: nth_Cons split: nat.splits)
    qed
    with True le low show ?thesis by auto
  next
    case False
    with Cons.prems have "findSmallestLoop (i + 1) rs (s, k) = (s', k')" by simp
    from Cons.IH [OF this]
    have le: "s' \<le> s" and low: "\<forall>x \<in> set rs. s' \<le> Risk x"
      and alt: "(s' = s \<and> k' = k)
        \<or> (s' < s \<and> (\<exists>j < length rs. k' = i + 1 + j \<and> Risk (rs ! j) = s'
            \<and> (\<forall>j' < j. s' < Risk (rs ! j'))))"
      by auto
    from alt have "(s' = s \<and> k' = k) \<or> (s' < s \<and> (\<exists>j < length (r # rs). k' = i + j \<and> Risk ((r # rs) ! j) = s'
            \<and> (\<forall>j' < j. s' < Risk ((r # rs) ! j'))))"
    proof
      assume "s' = s \<and> k' = k"
      then show ?thesis by simp
    next
      assume "s' < s \<and> (\<exists>j < length rs. k' = i + 1 + j \<and> Risk (rs ! j) = s'
            \<and> (\<forall>j' < j. s' < Risk (rs ! j')))"
      then obtain j where j: "s' < s" "j < length rs" "k' = i + 1 + j" "Risk (rs ! j) = s'"
        "\<forall>j' < j. s' < Risk (rs ! j')" by blast
      with False have "\<exists>j < length (r # rs). k' = i + j \<and> Risk ((r # rs) ! j) = s'
            \<and> (\<forall>j' < j. s' < Risk ((r # rs) ! j'))"
        by (intro exI [of _ "Suc j"]) (simp add: nth_Cons split: nat.splits)
      with j(1) show ?thesis by blast
    qed
    with False le low show ?thesis by auto
  qed
qed

lemma findSmallestRisk_index:
  assumes "findSmallestRisk buf = (s, k)" and "buf \<noteq> []"
  shows "k < length buf"
proof -
  from assms(1) have "findSmallestLoop 0 buf (maxRisk, 0) = (s, k)"
    by (simp add: findSmallestRisk_def)
  from findSmallestLoop_spec [OF this] assms(2) show ?thesis by auto
qed


lemma length_trimLoop: "length (trimLoop i xs buf) = length buf"
  by (induction xs arbitrary: i buf) (auto split: prod.splits)

lemma trimLoop_append:
  "trimLoop i (xs @ ys) buf = trimLoop (i + length xs) ys (trimLoop i xs buf)"
  by (induction xs arbitrary: i buf) simp_all

lemma trimLoop_fill:
  "length buf = maxResults \<Longrightarrow> i + length xs \<le> maxResults \<Longrightarrow>
     trimLoop i xs buf = take i buf @ xs @ drop (i + length xs) buf"
proof (induction xs arbitrary: i buf)
  case Nil
  then show ?case by simp
next
  case (Cons x xs)
  from Cons.prems have i: "i < length buf" by simp
  from Cons.prems have "trimLoop i (x # xs) buf = trimLoop (i + 1) xs (buf[i := x])"
    by simp
  also from Cons.prems have "\<dots> = take (i + 1) (buf[i := x]) @ xs @ drop (i + 1 + length xs) (buf[i := x])"
    by (intro Cons.IH) simp_all
  also from i have "take (i + 1) (buf[i := x]) = take i buf @ [x]"
    by (simp add: take_Suc_conv_app_nth)
  also have "drop (i + 1 + length xs) (buf[i := x]) = drop (i + length (x # xs)) buf"
    by simp
  finally show ?case by simp
qed

lemma trimLoop_step:
  "maxResults \<le> i \<Longrightarrow>
     trimLoop i (c # rest) buf =
       trimLoop (i + 1) rest
         (if fst (findSmallestRisk buf) < Risk c
          then buf[snd (findSmallestRisk buf) := c] else buf)"
  by (simp split: prod.splits)

lemma trimDownResults_more:
  assumes "maxResults < length results"
  shows "trimDownResults results =
           trimLoop maxResults (drop maxResults results) (take maxResults results)"
proof -
  have "trimLoop 0 (take maxResults results @ drop maxResults results)
          (replicate maxResults zeroFileResult)
        = trimLoop (0 + length (take maxResults results)) (drop maxResults results)
            (trimLoop 0 (take maxResults results) (replicate maxResults zeroFileResult))"
    by (rule trimLoop_append)
  moreover from assms have "length (take maxResults results) = maxResults" by simp
  moreover from assms
  have "trimLoop 0 (take maxResults results) (replicate maxResults zeroFileResult)
          = take maxResults results"
    by (subst trimLoop_fill) simp_all
  ultimately show ?thesis using assms by (simp add: trimDownResults_def)
qed

lemma mset_trimLoop:
  "maxResults \<le> i \<Longrightarrow> buf \<noteq> [] \<Longrightarrow> mset (trimLoop i xs buf) \<subseteq># mset buf + mset xs"
proof (induction xs arbitrary: i buf)
  case Nil
  then show ?case by simp
next
  case (Cons c rest)
  obtain s k where sk: "findSmallestRisk buf = (s, k)" by (cases "findSmallestRisk buf")
  with Cons.prems have k: "k < length buf" by (simp add: findSmallestRisk_index)
  let ?buf' = "if s < Risk c then buf[k := c] else buf"
  from Cons.prems sk have step: "trimLoop i (c # rest) buf = trimLoop (i + 1) rest ?buf'"
    by (simp add: trimLoop_step)
  from Cons.prems have "mset (trimLoop (i + 1) rest ?buf') \<subseteq># mset ?buf' + mset rest"
    by (intro Cons.IH) auto
  moreover from k have "mset ?buf' \<subseteq># add_mset c (mset buf)"
    by (auto simp: mset_update intro: subset_mset.order_trans [OF diff_subset_eq_self])
  ultimately have "mset (trimLoop (i + 1) rest ?buf') \<subseteq># add_mset c (mset buf) + mset rest"
    by (meson subset_mset.add_right_mono subset_mset.order_trans)
  with step show ?case by simp
qed




lemma mset_trimDownResults: "mset (trimDownResults results) \<subseteq># mset results"
proof (cases "length results \<le> maxResults")
  case True
  then show ?thesis by (simp add: trimDownResults_def)
next
  case False
  then have m: "maxResults < length results" by simp
  then have ne: "take maxResults results \<noteq> []" by (auto simp: maxResults_def)
  have "mset (trimLoop maxResults (drop maxResults results) (take maxResults results))
          \<subseteq># mset (take maxResults results) + mset (drop maxResults results)"
    by (rule mset_trimLoop [OF order_refl ne])
  also have "\<dots> = mset results"
    by (simp flip: mset_append)
  finally show ?thesis using m by (simp add: trimDownResults_more)
qed

lemma set_trimDownResults: "set (trimDownResults results) \<subseteq> set results"
  using mset_trimDownResults [of results] by (metis set_mset_mono set_mset_mset)

text \<open>
  Claim C10. A list of at most 10 results is returned as it is; a longer list is cut
  down to exactly 10 results.
\<close>

theorem trimDownResults_length:
  "(length results \<le> 10 \<longrightarrow> trimDownResults results = results)
   \<and> (10 < length results \<longrightarrow> length (trimDownResults results) = 10)"
proof -
  have "10 < length results \<longrightarrow> length (trimDownResults results) = 10"
  proof
    assume "10 < length results"
    then have m: "maxResults < length results" by (simp add: maxResults_def)
    then show "length (trimDownResults results) = 10"
      by (simp add: trimDownResults_more length_trimLoop) (simp add: maxResults_def)
  qed
  then show ?thesis by (simp add: trimDownResults_def maxResults_def)
qed

theorem trimDownResults_length_witness:
  "trimDownResults [\<lparr>Path = ''a'', Risk = 0.5\<rparr>, \<lparr>Path = ''b'', Risk = 0.1\<rparr>]
     = [\<lparr>Path = ''a'', Risk = 0.5\<rparr>, \<lparr>Path = ''b'', Risk = 0.1\<rparr>]
   \<and> length (trimDownResults (replicate 11 \<lparr>Path = ''a'', Risk = 0.5\<rparr>)) = 10"
  using trimDownResults_length [of "[\<lparr>Path = ''a'', Risk = 0.5\<rparr>, \<lparr>Path = ''b'', Risk = 0.1\<rparr>]"]
    trimDownResults_length [of "replicate 11 \<lparr>Path = ''a'', Risk = 0.5\<rparr>"]
  by simp

section \<open>The walk\<close>

lemma walkAll_append:
  "walkAll m absP st (es @ fs) =
     (case walkAll m absP st es of Inl p \<Rightarrow> Inl p | Inr st' \<Rightarrow> walkAll m absP st' fs)"
  by (induction es arbitrary: st) (simp_all split: sum.splits)

lemma walkFn_results:
  assumes "walkFn m absP st e = Inr st'"
    and "x \<in> set (finalResults st') \<union> set (currentResults st')"
  shows "x \<in> set (finalResults st) \<union> set (currentResults st) \<or> fromEntry m absP e x"
proof (cases "entryInfo e")
  case None
  with assms show ?thesis by (simp add: walkFn_def)
next
  case (Some info)
  show ?thesis
  proof (cases "IsDir info")
    case True
    with Some assms(1)
    have "st' = st\<lparr>finalResults := finalResults st @ trimDownResults (currentResults st),
                    currentResults := []\<rparr>"
      by (simp add: walkFn_def)
    with assms(2) set_trimDownResults [of "currentResults st"] show ?thesis by auto
  next
    case False
    with Some assms(1) obtain rs where
      rs: "assessDirRisk m (entryClock e) absP (entryPath e) (entryInfo e) (entryErr e) = Inr rs"
      and st': "st' = st\<lparr>currentResults := currentResults st @ rs\<rparr>"
      by (auto simp: walkFn_def split: sum.splits)
    from st' assms(2) have "x \<in> set (finalResults st) \<union> set (currentResults st) \<or> x \<in> set rs"
      by auto
    then show ?thesis
    proof
      assume "x \<in> set rs"
      from assessDirRisk_Inr [OF rs this] Some False have "fromEntry m absP e x"
        by (auto simp: fromEntry_def qualifies_def resultOf_def)
      then show ?thesis ..
    qed simp
  qed
qed

lemma walkAll_results:
  "walkAll m absP st es = Inr st' \<Longrightarrow>
   x \<in> set (finalResults st') \<union> set (currentResults st') \<Longrightarrow>
     x \<in> set (finalResults st) \<union> set (currentResults st) \<or> (\<exists>e \<in> set es. fromEntry m absP e x)"
proof (induction es arbitrary: st)
  case Nil
  then show ?case by simp
next
  case (Cons e es)
  from Cons.prems(1) obtain st1 where s1: "walkFn m absP st e = Inr st1"
    and rest: "walkAll m absP st1 es = Inr st'"
    by (auto split: sum.splits)
  from Cons.IH [OF rest Cons.prems(2)]
  show ?case
  proof
    assume "x \<in> set (finalResults st1) \<union> set (currentResults st1)"
    from walkFn_results [OF s1 this] show ?thesis by auto
  qed auto
qed

lemma scanResults_results:
  assumes "scanResults m absP es = Inr out" and "x \<in> set out"
  shows "\<exists>e \<in> set es. fromEntry m absP e x"
proof -
  from assms(1) obtain st where
    w: "walkAll m absP \<lparr>finalResults = [], currentResults = []\<rparr> es = Inr st"
    and out: "out = finalResults st @ trimDownResults (currentResults st)"
    by (auto simp: scanResults_def split: sum.splits)
  from out assms(2) set_trimDownResults [of "currentResults st"]
  have "x \<in> set (finalResults st) \<union> set (currentResults st)" by auto
  from walkAll_results [OF w this] show ?thesis by simp
qed

text \<open>
  Claim C2. The walk function calls \<open>IsDir\<close> on the file info before it looks at
  the error. For an entry whose \<open>Lstat\<close> failed the walk passes a nil info with the
  error, so the call panics and the run ends with no result, wherever the entry stands
  in the traversal; \<open>assessDirRisk\<close>, which tests the error first and would skip the
  entry, is never reached.
\<close>

theorem nil_info_panics:
  "walkFn m absP st \<lparr>entryPath = p, entryInfo = None, entryErr = Some msg, entryClock = t\<rparr>
     = Inl NilDereference
   \<and> assessDirRisk m t absP p None (Some msg) = Inr []
   \<and> scanResults m absP
       (before @ \<lparr>entryPath = p, entryInfo = None, entryErr = Some msg, entryClock = t\<rparr> # after)
     = Inl NilDereference"
proof -
  let ?e = "\<lparr>entryPath = p, entryInfo = None, entryErr = Some msg, entryClock = t\<rparr>"
  have f: "walkFn m absP s ?e = Inl NilDereference" for s
    by (simp add: walkFn_def)
  have "walkAll m absP s (before @ ?e # after) = Inl NilDereference" for s
    by (cases "walkAll m absP s before") (auto simp: walkAll_append f intro: panic.exhaust)
  then have "scanResults m absP (before @ ?e # after) = Inl NilDereference"
    by (simp add: scanResults_def)
  with f show ?thesis by (simp add: assessDirRisk_def)
qed

text \<open>
  Claim C3. Every result that the scoring of an entry creates has the clamped sum of
  the file risk and the path length rule as its risk, which lies between 0 and 1; the
  clamp sends a value above 1 to 1, a value below 0 to 0 and leaves a value in between
  unchanged; every result of a run has its risk between 0 and 1.
\<close>

theorem risk_clamped:
  "(assessDirRisk m now absPath path info err = Inr rs \<and> r \<in> set rs \<longrightarrow>
      (\<exists>i. info = Some i
         \<and> Risk r = checkRiskRange (fadd (assessFileRisk m now path i)
                                     (assessDirNameLength path)))
      \<and> 0 \<le> Risk r \<and> Risk r \<le> 1)
   \<and> (1 < x \<longrightarrow> checkRiskRange x = 1)
   \<and> (x < 0 \<longrightarrow> checkRiskRange x = 0)
   \<and> (0 \<le> x \<and> x \<le> 1 \<longrightarrow> checkRiskRange x = x)
   \<and> (scanResults m absPath entries = Inr out \<and> r' \<in> set out \<longrightarrow> 0 \<le> Risk r' \<and> Risk r' \<le> 1)"
proof -
  have a: "assessDirRisk m now absPath path info err = Inr rs \<and> r \<in> set rs \<longrightarrow>
      (\<exists>i. info = Some i
         \<and> Risk r = checkRiskRange (fadd (assessFileRisk m now path i)
                                     (assessDirNameLength path)))
      \<and> 0 \<le> Risk r \<and> Risk r \<le> 1"
  proof
    assume h: "assessDirRisk m now absPath path info err = Inr rs \<and> r \<in> set rs"
    then obtain i where "info = Some i"
      "r = \<lparr>Path = absPath path,
             Risk = checkRiskRange (fadd (assessFileRisk m now path i)
                      (assessDirNameLength path))\<rparr>"
      using assessDirRisk_Inr by blast
    then show "(\<exists>i. info = Some i
         \<and> Risk r = checkRiskRange (fadd (assessFileRisk m now path i)
                                     (assessDirNameLength path)))
      \<and> 0 \<le> Risk r \<and> Risk r \<le> 1"
      using checkRiskRange_bounds by simp
  qed
  have b: "(1 < x \<longrightarrow> checkRiskRange x = 1) \<and> (x < 0 \<longrightarrow> checkRiskRange x = 0)
     \<and> (0 \<le> x \<and> x \<le> 1 \<longrightarrow> checkRiskRange x = x)"
    by (simp add: checkRiskRange_def maxRisk_one minRisk_zero)
  have c: "scanResults m absPath entries = Inr out \<and> r' \<in> set out \<longrightarrow> 0 \<le> Risk r' \<and> Risk r' \<le> 1"
  proof
    assume "scanResults m absPath entries = Inr out \<and> r' \<in> set out"
    then obtain e where "fromEntry m absPath e r'" using scanResults_results by blast
    then show "0 \<le> Risk r' \<and> Risk r' \<le> 1"
      using checkRiskRange_bounds
      by (auto simp: fromEntry_def qualifies_def resultOf_def split: option.splits)
  qed
  from a b c show ?thesis by blast
qed

theorem risk_clamped_witness:
  "assessDirRisk initExtensionRiskMap 2520000000000000 (\<lambda>p. p) ''a.png''
       (Some \<lparr>Size = 5000, ModTime = 0, IsDir = False\<rparr>) None
     = Inr [\<lparr>Path = ''a.png'', Risk = float64 0.30\<rparr>]
   \<and> checkRiskRange 1.10 = 1 \<and> checkRiskRange (- 0.30) = 0 \<and> checkRiskRange 0.30 = 0.30
   \<and> scanResults initExtensionRiskMap (\<lambda>p. p)
        [\<lparr>entryPath = ''a.png'',
          entryInfo = Some \<lparr>Size = 5000, ModTime = 0, IsDir = False\<rparr>,
          entryErr = None, entryClock = 2520000000000000\<rparr>]
      = Inr [\<lparr>Path = ''a.png'', Risk = float64 0.30\<rparr>]
   \<and> 0 \<le> Risk \<lparr>Path = ''a.png'', Risk = float64 0.30\<rparr>
   \<and> Risk \<lparr>Path = ''a.png'', Risk = float64 0.30\<rparr> \<le> 1"
proof -
  have a: "assessDirRisk initExtensionRiskMap 2520000000000000 (\<lambda>p. p) ''a.png''
       (Some \<lparr>Size = 5000, ModTime = 0, IsDir = False\<rparr>) None
     = Inr [\<lparr>Path = ''a.png'', Risk = float64 0.30\<rparr>]"
    by code_simp
  have s: "scanResults initExtensionRiskMap (\<lambda>p. p)
        [\<lparr>entryPath = ''a.png'',
          entryInfo = Some \<lparr>Size = 5000, ModTime = 0, IsDir = False\<rparr>,
          entryErr = None, entryClock = 2520000000000000\<rparr>]
      = Inr [\<lparr>Path = ''a.png'', Risk = float64 0.30\<rparr>]"
    by code_simp
  have n: "(1 :: real) < 1.10" "(- 0.30 :: real) < 0" "(0 :: real) \<le> 0.30 \<and> (0.30 :: real) \<le> 1"
    by simp_all
  have i: "\<lparr>Path = ''a.png'', Risk = float64 0.30\<rparr>
      \<in> set [\<lparr>Path = ''a.png'', Risk = float64 0.30\<rparr>]"
    by simp
  from risk_clamped [where x = "1.10"] n(1) have c1: "checkRiskRange 1.10 = 1" by blast
  from risk_clamped [where x = "- 0.30"] n(2) have c2: "checkRiskRange (- 0.30) = 0" by blast
  from risk_clamped [where x = "0.30"] n(3) have c3: "checkRiskRange 0.30 = 0.30" by blast
  from risk_clamped [where m = initExtensionRiskMap and absPath = "\<lambda>p. p"
      and entries = "[\<lparr>entryPath = ''a.png'',
          entryInfo = Some \<lparr>Size = 5000, ModTime = 0, IsDir = False\<rparr>,
          entryErr = None, entryClock = 2520000000000000\<rparr>]"
      and out = "[\<lparr>Path = ''a.png'', Risk = float64 0.30\<rparr>]"
      and r' = "\<lparr>Path = ''a.png'', Risk = float64 0.30\<rparr>"] s i
  have c4: "0 \<le> Risk \<lparr>Path = ''a.png'', Risk = float64 0.30\<rparr>
      \<and> Risk \<lparr>Path = ''a.png'', Risk = float64 0.30\<rparr> \<le> 1"
    by blast
  from a s c1 c2 c3 c4 show ?thesis by blast
qed

text \<open>
  Claim C4. A file of at most 1000 bytes yields no result, whatever its path,
  extension, modification time and error; every result of a run was created from an
  entry of more than 1000 bytes; a run over entries of at most 1000 bytes has no result.
\<close>

theorem small_files_excluded:
  "(Size i \<le> 1000 \<longrightarrow> assessDirRisk m now absPath path (Some i) err = Inr [])
   \<and> (scanResults m absPath entries = Inr out \<and> x \<in> set out \<longrightarrow>
        (\<exists>e \<in> set entries. \<exists>j. entryInfo e = Some j \<and> 1000 < Size j
           \<and> assessDirRisk m (entryClock e) absPath (entryPath e) (entryInfo e) (entryErr e)
               = Inr [x]))
   \<and> ((\<forall>e \<in> set entries. \<forall>j. entryInfo e = Some j \<longrightarrow> Size j \<le> 1000) \<and>
        scanResults m absPath entries = Inr out \<longrightarrow> out = [])"
proof -
  have a: "Size i \<le> 1000 \<longrightarrow> assessDirRisk m now absPath path (Some i) err = Inr []"
    by (simp add: assessDirRisk_def split: option.splits)
  have b: "scanResults m absPath entries = Inr out \<and> x \<in> set out \<longrightarrow>
        (\<exists>e \<in> set entries. \<exists>j. entryInfo e = Some j \<and> 1000 < Size j
           \<and> assessDirRisk m (entryClock e) absPath (entryPath e) (entryInfo e) (entryErr e)
               = Inr [x])" for x
  proof
    assume "scanResults m absPath entries = Inr out \<and> x \<in> set out"
    then obtain e where e: "e \<in> set entries" "fromEntry m absPath e x"
      using scanResults_results by blast
    from e(2) obtain j where "entryInfo e = Some j" "1000 < Size j"
      "assessDirRisk m (entryClock e) absPath (entryPath e) (entryInfo e) (entryErr e) = Inr [x]"
      by (auto simp: fromEntry_def qualifies_def resultOf_def assessDirRisk_def Let_def
          split: option.splits)
    with e(1) show "\<exists>e \<in> set entries. \<exists>j. entryInfo e = Some j \<and> 1000 < Size j
           \<and> assessDirRisk m (entryClock e) absPath (entryPath e) (entryInfo e) (entryErr e)
               = Inr [x]" by blast
  qed
  have c: "(\<forall>e \<in> set entries. \<forall>j. entryInfo e = Some j \<longrightarrow> Size j \<le> 1000) \<and>
        scanResults m absPath entries = Inr out \<longrightarrow> out = []"
  proof
    assume h: "(\<forall>e \<in> set entries. \<forall>j. entryInfo e = Some j \<longrightarrow> Size j \<le> 1000) \<and>
        scanResults m absPath entries = Inr out"
    show "out = []"
    proof (cases out)
      case (Cons y ys)
      with h b [of y] show ?thesis by fastforce
    qed simp
  qed
  from a b [of x] c show ?thesis by blast
qed

theorem small_files_excluded_witness:
  "assessDirRisk initExtensionRiskMap 0 (\<lambda>p. p) ''pics/img.png''
       (Some \<lparr>Size = 500, ModTime = 0, IsDir = False\<rparr>) None = Inr []
   \<and> scanResults initExtensionRiskMap (\<lambda>p. p)
        [\<lparr>entryPath = ''pics'', entryInfo = Some \<lparr>Size = 4096, ModTime = 0, IsDir = True\<rparr>,
          entryErr = None, entryClock = 0\<rparr>,
         \<lparr>entryPath = ''pics/img.png'',
          entryInfo = Some \<lparr>Size = 500, ModTime = 0, IsDir = False\<rparr>,
          entryErr = None, entryClock = 0\<rparr>] = Inr []"
proof -
  have s: "scanResults initExtensionRiskMap (\<lambda>p. p)
        [\<lparr>entryPath = ''pics'', entryInfo = Some \<lparr>Size = 4096, ModTime = 0, IsDir = True\<rparr>,
          entryErr = None, entryClock = 0\<rparr>,
         \<lparr>entryPath = ''pics/img.png'',
          entryInfo = Some \<lparr>Size = 500, ModTime = 0, IsDir = False\<rparr>,
          entryErr = None, entryClock = 0\<rparr>] = Inr []"
    by (simp add: scanResults_def walkFn_def assessDirRisk_def trimDownResults_def)
  show ?thesis
    using small_files_excluded [where i = "\<lparr>Size = 500, ModTime = 0, IsDir = False\<rparr>"
        and m = initExtensionRiskMap and now = 0 and absPath = "\<lambda>p. p"
        and path = "''pics/img.png''" and err = None and out = "[]"
        and entries = "[\<lparr>entryPath = ''pics'', entryInfo = Some \<lparr>Size = 4096, ModTime = 0, IsDir = True\<rparr>,
          entryErr = None, entryClock = 0\<rparr>,
         \<lparr>entryPath = ''pics/img.png'',
          entryInfo = Some \<lparr>Size = 500, ModTime = 0, IsDir = False\<rparr>,
          entryErr = None, entryClock = 0\<rparr>]"] s
    by simp
qed

section \<open>The results of one run of files\<close>
















section \<open>Two runs over an unchanged tree\<close>







end
